theory Spec2Isabelle
  imports Complex_Main "HOL-Library.Multiset" "HOL-Library.Sublist"
begin

section \<open>JavaScript values of \<^verbatim>\<open>api/submit-score.js\<close>\<close>

text \<open>
  Every value the handler touches comes out of \<^verbatim>\<open>JSON.parse\<close> (the request body, the
  store's response) or is built from such values. A number is an IEEE double; JSON text
  denotes the finite ones and, by overflow (\<^verbatim>\<open>1e999\<close>), the two infinities, never NaN.
  The finite doubles are modelled by the rationals, of which they are a subset: the
  handler only compares numbers and takes the sign of a difference, and on finite doubles
  both agree with the exact result.
\<close>

datatype jnum = NegInf | Fin rat | PosInf

text \<open>
  A string is a list with one \<^typ>\<open>char\<close> for each of its UTF-16 code units, so that
  \<^verbatim>\<open>.length\<close> is \<^const>\<open>length\<close>; the handler reads nothing of a string but its length
  and whether it is empty. An object is the list of its own properties in insertion
  order; \<^verbatim>\<open>JSON.parse\<close> gives every key once.
\<close>

datatype json =
    JNull
  | JBool bool
  | JNum jnum
  | JStr string
  | JArr "json list"
  | JObj "(string \<times> json) list"

text \<open>\<^verbatim>\<open>undefined\<close> is no JSON value: a value that may be undefined is a \<^typ>\<open>json option\<close>.\<close>

type_synonym jsval = "json option"

text \<open>What a \<^verbatim>\<open>throw\<close> or a rejected promise carries; the handler's \<^verbatim>\<open>catch\<close> treats all alike.\<close>

datatype exn = TypeError | FetchError | SyntaxError

definition and_then :: "exn + 'a \<Rightarrow> ('a \<Rightarrow> exn + 'b) \<Rightarrow> exn + 'b" where
  "and_then r f = (case r of Inl e \<Rightarrow> Inl e | Inr v \<Rightarrow> f v)"

text \<open>
  The two conversions between strings and numbers work on the digits of a double
  (\<^verbatim>\<open>StringToNumber\<close> rounds, \<^verbatim>\<open>Number::toString\<close> prints the shortest digits that round
  back). They are taken as parameters: every theorem below holds for each choice of them.
  \<^const>\<open>None\<close> is NaN.
\<close>

record engine =
  string_to_number :: "string \<Rightarrow> jnum option"
  number_to_string :: "jnum \<Rightarrow> string"

subsection \<open>Truthiness, \<^verbatim>\<open>typeof\<close>, property reads\<close>

fun truthy :: "jsval \<Rightarrow> bool" where
  "truthy None = False"
| "truthy (Some JNull) = False"
| "truthy (Some (JBool b)) = b"
| "truthy (Some (JNum n)) = (n \<noteq> Fin 0)"
| "truthy (Some (JStr s)) = (s \<noteq> [])"
| "truthy (Some (JArr xs)) = True"
| "truthy (Some (JObj kvs)) = True"

fun typeof :: "jsval \<Rightarrow> string" where
  "typeof None = ''undefined''"
| "typeof (Some JNull) = ''object''"
| "typeof (Some (JBool b)) = ''boolean''"
| "typeof (Some (JNum n)) = ''number''"
| "typeof (Some (JStr s)) = ''string''"
| "typeof (Some (JArr xs)) = ''object''"
| "typeof (Some (JObj kvs)) = ''object''"

text \<open>
  \<^verbatim>\<open>v.k\<close> for the five keys the handler reads: \<^verbatim>\<open>name\<close>, \<^verbatim>\<open>shrimps\<close>, \<^verbatim>\<open>length\<close>,
  \<^verbatim>\<open>record\<close>, \<^verbatim>\<open>leaders\<close>. Reading a property of \<^verbatim>\<open>undefined\<close> or \<^verbatim>\<open>null\<close> throws. None
  of the five is inherited from a prototype; strings and arrays own \<^verbatim>\<open>length\<close>.
\<close>

fun get_prop :: "jsval \<Rightarrow> string \<Rightarrow> exn + jsval" where
  "get_prop None k = Inl TypeError"
| "get_prop (Some JNull) k = Inl TypeError"
| "get_prop (Some (JBool b)) k = Inr None"
| "get_prop (Some (JNum n)) k = Inr None"
| "get_prop (Some (JStr s)) k =
     Inr (if k = ''length'' then Some (JNum (Fin (of_nat (length s)))) else None)"
| "get_prop (Some (JArr xs)) k =
     Inr (if k = ''length'' then Some (JNum (Fin (of_nat (length xs)))) else None)"
| "get_prop (Some (JObj kvs)) k = Inr (map_of kvs k)"

subsection \<open>Coercion to a number\<close>

text \<open>
  \<^verbatim>\<open>ToString\<close> of a JSON value. An array joins its elements with commas, \<^verbatim>\<open>null\<close>
  elements as the empty string. A plain object is \<^verbatim>\<open>[object Object]\<close>, unless it owns a
  \<^verbatim>\<open>toString\<close> property: that one, parsed from JSON, is not callable, it hides
  \<^verbatim>\<open>Object.prototype.toString\<close>, and the conversion throws.
\<close>

fun to_string :: "engine \<Rightarrow> json \<Rightarrow> exn + string"
  and join :: "engine \<Rightarrow> json list \<Rightarrow> exn + string" where
  "to_string en JNull = Inr ''null''"
| "to_string en (JBool b) = Inr (if b then ''true'' else ''false'')"
| "to_string en (JNum n) = Inr (number_to_string en n)"
| "to_string en (JStr s) = Inr s"
| "to_string en (JArr xs) = join en xs"
| "to_string en (JObj kvs) =
     (if ''toString'' \<in> fst ` set kvs then Inl TypeError else Inr ''[object Object]'')"
| "join en [] = Inr []"
| "join en (x # xs) =
     (case (if x = JNull then Inr [] else to_string en x) of
        Inl e \<Rightarrow> Inl e
      | Inr s \<Rightarrow>
          (if xs = [] then Inr s
           else case join en xs of Inl e \<Rightarrow> Inl e | Inr t \<Rightarrow> Inr (s @ '','' @ t)))"

text \<open>\<^verbatim>\<open>ToNumber\<close>; \<^const>\<open>None\<close> is NaN. Arrays and objects go through their string.\<close>

fun to_number :: "engine \<Rightarrow> jsval \<Rightarrow> exn + jnum option" where
  "to_number en None = Inr None"
| "to_number en (Some JNull) = Inr (Some (Fin 0))"
| "to_number en (Some (JBool b)) = Inr (Some (Fin (if b then 1 else 0)))"
| "to_number en (Some (JNum n)) = Inr (Some n)"
| "to_number en (Some (JStr s)) = Inr (string_to_number en s)"
| "to_number en (Some (JArr xs)) =
     and_then (to_string en (JArr xs)) (\<lambda>s. Inr (string_to_number en s))"
| "to_number en (Some (JObj kvs)) =
     and_then (to_string en (JObj kvs)) (\<lambda>s. Inr (string_to_number en s))"

subsection \<open>Arithmetic on numbers\<close>

fun jnum_less :: "jnum \<Rightarrow> jnum \<Rightarrow> bool" where
  "jnum_less NegInf NegInf = False"
| "jnum_less NegInf (Fin b) = True"
| "jnum_less NegInf PosInf = True"
| "jnum_less (Fin a) NegInf = False"
| "jnum_less (Fin a) (Fin b) = (a < b)"
| "jnum_less (Fin a) PosInf = True"
| "jnum_less PosInf y = False"

text \<open>\<^verbatim>\<open>x < y\<close> on numbers: false as soon as one side is NaN.\<close>

fun js_lt :: "jnum option \<Rightarrow> jnum option \<Rightarrow> bool" where
  "js_lt (Some x) (Some y) = jnum_less x y"
| "js_lt x y = False"

text \<open>
  \<^verbatim>\<open>x - y\<close>. Only the sign of the result is ever read (by the sort); on finite doubles
  the rounded difference has the sign of the exact one.
\<close>

fun js_minus :: "jnum option \<Rightarrow> jnum option \<Rightarrow> jnum option" where
  "js_minus (Some (Fin a)) (Some (Fin b)) = Some (Fin (a - b))"
| "js_minus (Some (Fin a)) (Some PosInf) = Some NegInf"
| "js_minus (Some (Fin a)) (Some NegInf) = Some PosInf"
| "js_minus (Some PosInf) (Some PosInf) = None"
| "js_minus (Some PosInf) (Some y) = Some PosInf"
| "js_minus (Some NegInf) (Some NegInf) = None"
| "js_minus (Some NegInf) (Some y) = Some NegInf"
| "js_minus x y = None"

text \<open>\<^verbatim>\<open>v < n\<close> and \<^verbatim>\<open>v > n\<close> for a number literal \<open>n\<close>: the other side is coerced.\<close>

definition less_than :: "engine \<Rightarrow> jsval \<Rightarrow> jnum \<Rightarrow> exn + bool" where
  "less_than en v n = and_then (to_number en v) (\<lambda>x. Inr (js_lt x (Some n)))"

definition greater_than :: "engine \<Rightarrow> jsval \<Rightarrow> jnum \<Rightarrow> exn + bool" where
  "greater_than en v n = and_then (to_number en v) (\<lambda>x. Inr (js_lt (Some n) x))"

section \<open>The validation of line 24\<close>

text \<open>
  \<^verbatim>\<open>!name || typeof shrimps !== 'number' || shrimps < 1 || name.length > 20\<close>,
  evaluated left to right, stopping at the first true disjunct.
\<close>

definition invalid :: "engine \<Rightarrow> jsval \<Rightarrow> jsval \<Rightarrow> exn + bool" where
  "invalid en name shrimps =
     (if \<not> truthy name then Inr True
      else if typeof shrimps \<noteq> ''number'' then Inr True
      else and_then (less_than en shrimps (Fin 1)) (\<lambda>low.
        if low then Inr True
        else and_then (get_prop name ''length'') (\<lambda>len. greater_than en len (Fin 20))))"

section \<open>The leaderboard update of lines 48 to 54\<close>

text \<open>
  An object literal. A property set to \<^verbatim>\<open>undefined\<close> reads and serialises as an absent
  one, and is left out.
\<close>

definition object_literal :: "(string \<times> jsval) list \<Rightarrow> json" where
  "object_literal ps = JObj (List.map_filter (\<lambda>(k, v). map_option (Pair k) v) ps)"

text \<open>\<^verbatim>\<open>{ name, shrimps, date: new Date().toISOString() }\<close>, the clock's string given.\<close>

definition new_score :: "jsval \<Rightarrow> jsval \<Rightarrow> string \<Rightarrow> json" where
  "new_score name shrimps date =
     object_literal [(''name'', name), (''shrimps'', shrimps), (''date'', Some (JStr date))]"

text \<open>The comparator \<^verbatim>\<open>(a, b) => b.shrimps - a.shrimps\<close>.\<close>

definition compare_shrimps :: "engine \<Rightarrow> json \<Rightarrow> json \<Rightarrow> exn + jnum option" where
  "compare_shrimps en a b =
     and_then (get_prop (Some b) ''shrimps'') (\<lambda>bs.
     and_then (get_prop (Some a) ''shrimps'') (\<lambda>as.
     and_then (to_number en bs) (\<lambda>x.
     and_then (to_number en as) (\<lambda>y. Inr (js_minus x y)))))"

text \<open>
  \<^verbatim>\<open>Array.prototype.sort\<close> with a comparator. ECMAScript requires the sort to be stable
  and to put \<open>x\<close> after \<open>y\<close> only when the comparator's value for \<open>(x, y)\<close> is positive (a
  NaN counts as zero); an exception of the comparator ends the sort. With a consistent
  comparator that fixes the result, which the insertion sort below computes: an element
  is placed before the first element of the sorted rest that it need not follow. Where
  the comparator is not consistent (an element whose \<^verbatim>\<open>shrimps\<close> does not coerce to a
  number makes it so) the order is left to the implementation: this is one such order,
  and engines differ from it and from each other. What is proved of the order below is
  proved of lists of score entries, where the comparator is consistent.
\<close>

fun insert_by :: "('a \<Rightarrow> 'a \<Rightarrow> exn + jnum option) \<Rightarrow> 'a \<Rightarrow> 'a list \<Rightarrow> exn + 'a list" where
  "insert_by cmp x [] = Inr [x]"
| "insert_by cmp x (y # ys) =
     (case cmp x y of
        Inl e \<Rightarrow> Inl e
      | Inr v \<Rightarrow>
          if js_lt (Some (Fin 0)) v
          then (case insert_by cmp x ys of Inl e \<Rightarrow> Inl e | Inr r \<Rightarrow> Inr (y # r))
          else Inr (x # y # ys))"

fun array_sort :: "('a \<Rightarrow> 'a \<Rightarrow> exn + jnum option) \<Rightarrow> 'a list \<Rightarrow> exn + 'a list" where
  "array_sort cmp [] = Inr []"
| "array_sort cmp (x # xs) =
     (case array_sort cmp xs of Inl e \<Rightarrow> Inl e | Inr r \<Rightarrow> insert_by cmp x r)"

text \<open>
  \<^verbatim>\<open>leaders.push(newScore); leaders.sort(...); leaders = leaders.slice(0, 10)\<close>
\<close>

definition merge :: "engine \<Rightarrow> json list \<Rightarrow> json \<Rightarrow> exn + json list" where
  "merge en leaders newScore =
     and_then (array_sort (compare_shrimps en) (leaders @ [newScore])) (\<lambda>ranked.
       Inr (take 10 ranked))"

section \<open>The handler\<close>

text \<open>
  \<^verbatim>\<open>req.method\<close> and \<^verbatim>\<open>req.body\<close>, the body as the platform has parsed it:
  \<^verbatim>\<open>undefined\<close> when the request has none.
\<close>

record request =
  "method" :: string
  body :: jsval

text \<open>
  What an \<^verbatim>\<open>await fetch(...)\<close> gives: a rejection, or a response with its \<^verbatim>\<open>ok\<close> flag
  and its body, which may fail to arrive, may be no JSON text, or parses to a value.
\<close>

datatype payload = Unreadable | NotJson | Json json

datatype fetch_result = Rejected | Response bool payload

text \<open>The world around one request: the store's two answers and the clock.\<close>

record env =
  get_result :: fetch_result
  put_result :: fetch_result
  now :: string

text \<open>
  An outbound call to the store. A \<^verbatim>\<open>PUT\<close> carries the value its body denotes:
  \<^verbatim>\<open>JSON.stringify\<close> writes a number that is not finite as \<^verbatim>\<open>null\<close>.
\<close>

datatype call = GET | PUT json

fun serialise :: "json \<Rightarrow> json" where
  "serialise JNull = JNull"
| "serialise (JBool b) = JBool b"
| "serialise (JNum n) = (case n of Fin r \<Rightarrow> JNum n | _ \<Rightarrow> JNull)"
| "serialise (JStr s) = JStr s"
| "serialise (JArr xs) = JArr (map serialise xs)"
| "serialise (JObj kvs) = JObj (map (\<lambda>(k, v). (k, serialise v)) kvs)"

record outcome =
  status :: nat
  reply :: json
  calls :: "call list"

definition respond :: "nat \<Rightarrow> string \<Rightarrow> string \<Rightarrow> call list \<Rightarrow> outcome" where
  "respond code key msg cs = \<lparr>status = code, reply = JObj [(key, JStr msg)], calls = cs\<rparr>"

text \<open>The \<^verbatim>\<open>catch\<close> block of lines 75 to 78.\<close>

definition unexpected :: "call list \<Rightarrow> outcome" where
  "unexpected cs = respond 500 ''error'' ''An unexpected error occurred.'' cs"

text \<open>Lines 57 to 73: the write.\<close>

definition put_leaders :: "env \<Rightarrow> json list \<Rightarrow> outcome" where
  "put_leaders w leaders =
     (let cs = [GET, PUT (serialise (JObj [(''leaders'', JArr leaders)]))] in
      case put_result w of
        Rejected \<Rightarrow> unexpected cs
      | Response ok b \<Rightarrow>
          if \<not> ok then
            (if b = Unreadable then unexpected cs
             else respond 500 ''error'' ''Failed to update leaderboards.'' cs)
          else respond 200 ''message''
                 ''Score submitted and leaderboard updated successfully.'' cs)"

text \<open>
  Lines 42 to 55: \<^verbatim>\<open>currentData.record.leaders || []\<close>, then the update. \<^verbatim>\<open>push\<close> exists
  on arrays only; calling it on another truthy value throws.
\<close>

definition process :: "engine \<Rightarrow> env \<Rightarrow> jsval \<Rightarrow> jsval \<Rightarrow> json \<Rightarrow> outcome" where
  "process en w name shrimps currentData =
     (case and_then (get_prop (Some currentData) ''record'') (\<lambda>r. get_prop r ''leaders'') of
        Inl e \<Rightarrow> unexpected [GET]
      | Inr l \<Rightarrow>
          (case (if truthy l then l else Some (JArr [])) of
             Some (JArr leaders) \<Rightarrow>
               (case merge en leaders (new_score name shrimps (now w)) of
                  Inl e \<Rightarrow> unexpected [GET]
                | Inr kept \<Rightarrow> put_leaders w kept)
           | _ \<Rightarrow> unexpected [GET]))"

text \<open>Lines 30 to 42: the read.\<close>

definition fetch_leaders :: "engine \<Rightarrow> env \<Rightarrow> jsval \<Rightarrow> jsval \<Rightarrow> outcome" where
  "fetch_leaders en w name shrimps =
     (case get_result w of
        Rejected \<Rightarrow> unexpected [GET]
      | Response ok b \<Rightarrow>
          if \<not> ok then
            (if b = Unreadable then unexpected [GET]
             else respond 500 ''error'' ''Failed to retrieve current leaderboard.'' [GET])
          else
            (case b of
               Json currentData \<Rightarrow> process en w name shrimps currentData
             | _ \<Rightarrow> unexpected [GET]))"

text \<open>
  The whole function. \<^verbatim>\<open>const { name, shrimps } = req.body\<close> throws on a body that is
  \<^verbatim>\<open>undefined\<close> or \<^verbatim>\<open>null\<close>.
\<close>

definition handler :: "engine \<Rightarrow> env \<Rightarrow> request \<Rightarrow> outcome" where
  "handler en w req =
     (if method req \<noteq> ''POST'' then respond 405 ''message'' ''Method Not Allowed'' []
      else
        case get_prop (body req) ''name'' of
          Inl e \<Rightarrow> unexpected []
        | Inr name \<Rightarrow>
            (case get_prop (body req) ''shrimps'' of
               Inl e \<Rightarrow> unexpected []
             | Inr shrimps \<Rightarrow>
                 (case invalid en name shrimps of
                    Inl e \<Rightarrow> unexpected []
                  | Inr True \<Rightarrow> respond 400 ''error'' ''Invalid score data.'' []
                  | Inr False \<Rightarrow> fetch_leaders en w name shrimps)))"

section \<open>Notions used to state the properties\<close>

text \<open>
  A score entry is an object whose \<^verbatim>\<open>shrimps\<close> is a number: the shape that line 48
  gives a new score.
\<close>

fun shrimps_of :: "json \<Rightarrow> jnum option" where
  "shrimps_of (JObj kvs) =
     (case map_of kvs ''shrimps'' of Some (JNum n) \<Rightarrow> Some n | _ \<Rightarrow> None)"
| "shrimps_of v = None"

definition is_entry :: "json \<Rightarrow> bool" where
  "is_entry v = (shrimps_of v \<noteq> None)"

text \<open>\<open>a\<close> may stand before \<open>b\<close> on a descending board: its \<^verbatim>\<open>shrimps\<close> is not less.\<close>

definition outranks :: "json \<Rightarrow> json \<Rightarrow> bool" where
  "outranks a b =
     (case (shrimps_of a, shrimps_of b) of
        (Some x, Some y) \<Rightarrow> \<not> jnum_less x y
      | _ \<Rightarrow> False)"

definition descending :: "json list \<Rightarrow> bool" where
  "descending xs = sorted_wrt outranks xs"

text \<open>The entries whose \<^verbatim>\<open>shrimps\<close> is \<open>k\<close>.\<close>

definition tied :: "jnum \<Rightarrow> json \<Rightarrow> bool" where
  "tied k v = (shrimps_of v = Some k)"

text \<open>
  The rules of the spec's section 4.1, in its words: \<^verbatim>\<open>name\<close> present, a text value, of
  length 1 to 20; \<^verbatim>\<open>shrimps\<close> present, a numeric value, not less than 1.
\<close>

definition spec_valid :: "jsval \<Rightarrow> jsval \<Rightarrow> bool" where
  "spec_valid name shrimps =
     ((case name of Some (JStr s) \<Rightarrow> 1 \<le> length s \<and> length s \<le> 20 | _ \<Rightarrow> False)
      \<and> (case shrimps of Some (JNum n) \<Rightarrow> \<not> jnum_less n (Fin 1) | _ \<Rightarrow> False))"

text \<open>
  A payload fails the validation of section 4.1 when its \<^verbatim>\<open>name\<close> and \<^verbatim>\<open>shrimps\<close> do not
  meet these rules, or when it has no fields to read at all.
\<close>

definition spec_rejects :: "jsval \<Rightarrow> bool" where
  "spec_rejects payload =
     (case (get_prop payload ''name'', get_prop payload ''shrimps'') of
        (Inr name, Inr shrimps) \<Rightarrow> \<not> spec_valid name shrimps
      | _ \<Rightarrow> True)"

text \<open>
  What line 24 lets pass, value by value. A \<^verbatim>\<open>shrimps\<close> passes when it is a number not
  less than 1. A \<^verbatim>\<open>name\<close> passes when it is a text of 1 to 20 code units, a number other
  than zero, \<^verbatim>\<open>true\<close>, an array of at most 20 elements, or an object whose \<^verbatim>\<open>length\<close>
  is not greater than 20; for an object the comparison coerces the property, which may
  throw.
\<close>

definition shrimps_ok :: "jsval \<Rightarrow> bool" where
  "shrimps_ok shrimps =
     (case shrimps of Some (JNum n) \<Rightarrow> \<not> jnum_less n (Fin 1) | _ \<Rightarrow> False)"

definition name_ok :: "engine \<Rightarrow> jsval \<Rightarrow> exn + bool" where
  "name_ok en name =
     (case name of
        Some (JStr s) \<Rightarrow> Inr (1 \<le> length s \<and> length s \<le> 20)
      | Some (JNum n) \<Rightarrow> Inr (n \<noteq> Fin 0)
      | Some (JBool b) \<Rightarrow> Inr b
      | Some (JArr xs) \<Rightarrow> Inr (length xs \<le> 20)
      | Some (JObj kvs) \<Rightarrow>
          and_then (greater_than en (map_of kvs ''length'') (Fin 20)) (\<lambda>g. Inr (\<not> g))
      | _ \<Rightarrow> Inr False)"

definition accepted :: "engine \<Rightarrow> jsval \<Rightarrow> jsval \<Rightarrow> exn + bool" where
  "accepted en name shrimps = (if shrimps_ok shrimps then name_ok en name else Inr False)"

text \<open>The list under \<^verbatim>\<open>record.leaders\<close> in the store's answer to the read, if there is one.\<close>

definition stored_leaders :: "env \<Rightarrow> json list" where
  "stored_leaders w =
     (case get_result w of
        Response ok (Json doc) \<Rightarrow>
          (case and_then (get_prop (Some doc) ''record'') (\<lambda>r. get_prop r ''leaders'') of
             Inr (Some (JArr xs)) \<Rightarrow> xs
           | _ \<Rightarrow> [])
      | _ \<Rightarrow> [])"

subsection \<open>Sample data\<close>

text \<open>
  An engine for the closed instances below, none of which converts between strings and
  numbers: its two functions are never applied there.
\<close>

definition sample_engine :: engine where
  "sample_engine = \<lparr>string_to_number = (\<lambda>s. None), number_to_string = (\<lambda>n. [])\<rparr>"

definition entry :: "string \<Rightarrow> rat \<Rightarrow> json" where
  "entry n s = new_score (Some (JStr n)) (Some (JNum (Fin s))) ''2025-01-01T00:00:00.000Z''"

definition full_board :: "json list" where
  "full_board =
     [entry ''ann'' 140, entry ''bob'' 130, entry ''cat'' 120, entry ''dan'' 110,
      entry ''eve'' 100, entry ''fay'' 90, entry ''gus'' 80, entry ''hal'' 70,
      entry ''ivy'' 60, entry ''jon'' 50]"

definition post :: "json \<Rightarrow> request" where
  "post b = \<lparr>method = ''POST'', body = Some b\<rparr>"

definition submission :: "json \<Rightarrow> json \<Rightarrow> json" where
  "submission n s = JObj [(''name'', n), (''shrimps'', s)]"

text \<open>The store's answer to a read: the document under \<^verbatim>\<open>record\<close>.\<close>

definition bin :: "json \<Rightarrow> fetch_result" where
  "bin doc = Response True (Json (JObj [(''record'', doc), (''metadata'', JObj [])]))"

definition sample_env :: env where
  "sample_env =
     \<lparr>get_result = bin (JObj [(''leaders'', JArr [entry ''ann'' 70, entry ''bob'' 50])]),
      put_result = bin (JObj []),
      now = ''2025-06-01T12:00:00.000Z''\<rparr>"

text \<open>A submission, the same with a date of the client's, and two other states of the store.\<close>

definition cy_request :: request where
  "cy_request = post (submission (JStr ''cy'') (JNum (Fin 60)))"

definition dated_request :: request where
  "dated_request =
     post (JObj [(''name'', JStr ''cy''), (''shrimps'', JNum (Fin 60)),
                 (''date'', JStr ''1999-12-31T00:00:00.000Z'')])"

definition failing_store :: env where
  "failing_store =
     sample_env\<lparr>get_result :=
       Response False (Json (JObj [(''message'', JStr ''Bin not found'')]))\<rparr>"

definition empty_store :: env where
  "empty_store = sample_env\<lparr>get_result := bin (JObj [])\<rparr>"

text \<open>A store whose failed answer breaks off before its body has arrived.\<close>

definition unreadable_store :: env where
  "unreadable_store = sample_env\<lparr>get_result := Response False Unreadable\<rparr>"

text \<open>A name whose \<^verbatim>\<open>length\<close> cannot be coerced: \<^verbatim>\<open>{"length": {"toString": 1}}\<close>.\<close>

definition odd_name :: json where
  "odd_name = JObj [(''length'', JObj [(''toString'', JNum (Fin 1))])]"

section \<open>The order of numbers\<close>

lemma sign_of_difference:
  "js_lt (Some (Fin 0)) (js_minus (Some y) (Some x)) = jnum_less x y"
  by (cases x; cases y) auto

lemma jnum_not_less_trans:
  "\<not> jnum_less x y \<Longrightarrow> \<not> jnum_less y z \<Longrightarrow> \<not> jnum_less x z"
  by (cases x; cases y; cases z) auto

lemma jnum_less_asym: "jnum_less x y \<Longrightarrow> \<not> jnum_less y x"
  by (cases x; cases y) auto

lemma jnum_less_irrefl: "\<not> jnum_less x x"
  by (cases x) auto

section \<open>Sorting score entries\<close>

lemma compare_entries:
  assumes "shrimps_of a = Some x" and "shrimps_of b = Some y"
  shows "compare_shrimps en a b = Inr (js_minus (Some y) (Some x))"
  using assms
  by (cases a; cases b)
    (auto simp: compare_shrimps_def and_then_def split: option.splits json.splits)

text \<open>
  Inserting an entry into a list of entries never throws. It keeps all elements, keeps a
  descending list descending, and puts the new entry before the entries it is tied with:
  the elements it passes have strictly more shrimps.
\<close>

lemma insert_entry:
  assumes "is_entry x" and "\<forall>y\<in>set ys. is_entry y"
  shows "\<exists>r. insert_by (compare_shrimps en) x ys = Inr r
    \<and> mset r = add_mset x (mset ys)
    \<and> (descending ys \<longrightarrow> descending r)
    \<and> (\<forall>k. filter (tied k) r
          = (if tied k x then x # filter (tied k) ys else filter (tied k) ys))"
  using assms(2)
proof (induction ys)
  case Nil
  show ?case by (simp add: descending_def)
next
  case (Cons y ys)
  from assms(1) obtain a where a: "shrimps_of x = Some a"
    by (auto simp: is_entry_def)
  from Cons.prems obtain b where b: "shrimps_of y = Some b"
    by (auto simp: is_entry_def)
  have cmp: "compare_shrimps en x y = Inr (js_minus (Some b) (Some a))"
    by (rule compare_entries [OF a b])
  show ?case
  proof (cases "jnum_less a b")
    case False
    then have "insert_by (compare_shrimps en) x (y # ys) = Inr (x # y # ys)"
      by (simp add: cmp sign_of_difference)
    moreover have "descending (y # ys) \<longrightarrow> descending (x # y # ys)"
    proof
      assume d: "descending (y # ys)"
      have "outranks x z" if "z \<in> set (y # ys)" for z
      proof -
        from that Cons.prems obtain c where c: "shrimps_of z = Some c"
          by (auto simp: is_entry_def)
        have "\<not> jnum_less b c"
          using d that b c by (auto simp: descending_def outranks_def jnum_less_irrefl)
        with False have "\<not> jnum_less a c" by (rule jnum_not_less_trans)
        then show ?thesis by (simp add: outranks_def a c)
      qed
      with d show "descending (x # y # ys)" by (simp add: descending_def)
    qed
    ultimately show ?thesis by simp
  next
    case True
    from Cons obtain r where r: "insert_by (compare_shrimps en) x ys = Inr r"
      "mset r = add_mset x (mset ys)" "descending ys \<longrightarrow> descending r"
      "\<forall>k. filter (tied k) r
         = (if tied k x then x # filter (tied k) ys else filter (tied k) ys)"
      by auto
    from True have ins: "insert_by (compare_shrimps en) x (y # ys) = Inr (y # r)"
      by (simp add: cmp sign_of_difference r(1))
    have ne: "a \<noteq> b" using True jnum_less_irrefl by auto
    have "descending (y # ys) \<longrightarrow> descending (y # r)"
    proof
      assume d: "descending (y # ys)"
      have "outranks y z" if "z \<in> set r" for z
      proof -
        from that r(2) have "z = x \<or> z \<in> set ys"
          by (metis insert_iff set_mset_add_mset_insert set_mset_mset)
        then show ?thesis
        proof
          assume "z = x"
          then show ?thesis using True a b by (simp add: outranks_def jnum_less_asym)
        next
          assume "z \<in> set ys"
          then show ?thesis using d by (simp add: descending_def)
        qed
      qed
      with d r(3) show "descending (y # r)" by (simp add: descending_def)
    qed
    moreover have "\<forall>k. filter (tied k) (y # r)
        = (if tied k x then x # filter (tied k) (y # ys) else filter (tied k) (y # ys))"
      using r(4) a b ne by (auto simp: tied_def)
    ultimately show ?thesis using ins r(2) by simp
  qed
qed

lemma sort_entries:
  assumes "\<forall>x\<in>set xs. is_entry x"
  shows "\<exists>r. array_sort (compare_shrimps en) xs = Inr r
    \<and> mset r = mset xs \<and> descending r
    \<and> (\<forall>k. filter (tied k) r = filter (tied k) xs)"
  using assms
proof (induction xs)
  case Nil
  show ?case by (simp add: descending_def)
next
  case (Cons x xs)
  then obtain r where r: "array_sort (compare_shrimps en) xs = Inr r" "mset r = mset xs"
    "descending r" "\<forall>k. filter (tied k) r = filter (tied k) xs"
    by auto
  from r(2) have "set r = set xs" by (rule mset_eq_setD)
  with Cons.prems have "is_entry x" "\<forall>y\<in>set r. is_entry y" by auto
  from insert_entry [OF this, of en] r show ?case by auto
qed

lemma is_entry_entry: "is_entry (entry n s)"
  by (simp add: is_entry_def entry_def new_score_def object_literal_def List.map_filter_def)

lemma full_board_entries: "list_all is_entry full_board"
  by (simp add: full_board_def is_entry_entry)

section \<open>The merge policy\<close>

text \<open>
  The first scenario of the spec's section 8: a board of ten entries, the least with 50
  shrimps, and a new score of 200. The new score comes first, the board keeps ten
  entries, and the one with 50 shrimps is gone.
\<close>

lemma full_board_scenario:
  "merge en full_board (entry ''Zed'' 200) = Inr (entry ''Zed'' 200 # butlast full_board)"
  by (simp add: merge_def and_then_def compare_shrimps_def full_board_def entry_def
      new_score_def object_literal_def List.map_filter_def)

text \<open>
  C2. For every leaderboard \<open>L\<close> (of any length, so also of length at most 10) and every
  score entry \<open>e\<close>, the merge returns the first ten elements of the ranking \<open>S\<close> of \<open>L\<close>
  with \<open>e\<close> appended, a descending list of the same entries: at most 10 entries, and all
  of them when there are fewer. What stands beyond the tenth place of the ranking is
  dropped.
\<close>

theorem merge_keeps_first_ten:
  assumes "list_all is_entry L" and "is_entry e"
  shows "\<exists>S. array_sort (compare_shrimps en) (L @ [e]) = Inr S
    \<and> mset S = add_mset e (mset L) \<and> descending S
    \<and> merge en L e = Inr (take 10 S)
    \<and> length (take 10 S) = min 10 (Suc (length L))
    \<and> length (take 10 S) \<le> 10"
proof -
  from assms have "\<forall>x\<in>set (L @ [e]). is_entry x" by (simp add: list_all_iff)
  from sort_entries [OF this, of en] obtain S where
    S: "array_sort (compare_shrimps en) (L @ [e]) = Inr S" "mset S = mset (L @ [e])"
      "descending S"
    by blast
  from S(2) have "length S = Suc (length L)"
    by (metis length_append_singleton size_mset)
  with S show ?thesis by (simp add: merge_def and_then_def)
qed

theorem merge_keeps_first_ten_witness:
  "list_all is_entry full_board \<and> is_entry (entry ''Zed'' 200)
   \<and> (\<exists>S. array_sort (compare_shrimps sample_engine) (full_board @ [entry ''Zed'' 200]) = Inr S
        \<and> mset S = add_mset (entry ''Zed'' 200) (mset full_board) \<and> descending S
        \<and> merge sample_engine full_board (entry ''Zed'' 200) = Inr (take 10 S)
        \<and> length (take 10 S) = min 10 (Suc (length full_board))
        \<and> length (take 10 S) \<le> 10)"
  using merge_keeps_first_ten [OF full_board_entries is_entry_entry [of "''Zed''" 200], of sample_engine]
    full_board_entries is_entry_entry [of "''Zed''" 200]
  by blast

text \<open>
  C3. For every leaderboard \<open>L\<close> and every score entry \<open>e\<close>, the merge returns a list
  sorted in descending order of \<^verbatim>\<open>shrimps\<close>: no element has less than an element after
  it.
\<close>

theorem merge_is_descending:
  assumes "list_all is_entry L" and "is_entry e"
  shows "\<exists>R. merge en L e = Inr R \<and> descending R"
proof -
  from assms have "\<forall>x\<in>set (L @ [e]). is_entry x" by (simp add: list_all_iff)
  from sort_entries [OF this, of en] obtain S where
    S: "array_sort (compare_shrimps en) (L @ [e]) = Inr S" "descending S"
    by blast
  from S(2) have "descending (take 10 S)"
    unfolding descending_def by (rule sorted_wrt_take)
  with S(1) show ?thesis by (simp add: merge_def and_then_def)
qed

theorem merge_is_descending_witness:
  "list_all is_entry [entry ''ann'' 70, entry ''bob'' 50] \<and> is_entry (entry ''cy'' 60)
   \<and> (\<exists>R. merge sample_engine [entry ''ann'' 70, entry ''bob'' 50] (entry ''cy'' 60) = Inr R
        \<and> descending R)"
proof -
  have h: "list_all is_entry [entry ''ann'' 70, entry ''bob'' 50]"
    by (simp add: is_entry_entry)
  from merge_is_descending [OF h is_entry_entry [of "''cy''" 60], of sample_engine] h
    is_entry_entry [of "''cy''" 60]
  show ?thesis by blast
qed

text \<open>
  C4. For every leaderboard \<open>L\<close> of fewer than 10 entries and every score entry \<open>e\<close>, the
  merge returns a list that contains \<open>e\<close>; it holds exactly the entries of \<open>L\<close> and \<open>e\<close>,
  none is lost.
\<close>

theorem merge_keeps_entry_under_capacity:
  assumes "list_all is_entry L" and "is_entry e" and "length L < 10"
  shows "\<exists>R. merge en L e = Inr R \<and> e \<in> set R \<and> mset R = add_mset e (mset L)"
proof -
  from assms have "\<forall>x\<in>set (L @ [e]). is_entry x" by (simp add: list_all_iff)
  from sort_entries [OF this, of en] obtain S where
    S: "array_sort (compare_shrimps en) (L @ [e]) = Inr S" "mset S = mset (L @ [e])"
    by blast
  from S(2) have "length S = Suc (length L)"
    by (metis length_append_singleton size_mset)
  with assms(3) have "take 10 S = S" by simp
  moreover from S(2) have "e \<in> set S"
    by (metis in_set_conv_decomp mset_eq_setD)
  ultimately show ?thesis using S by (simp add: merge_def and_then_def)
qed

theorem merge_keeps_entry_under_capacity_witness:
  "list_all is_entry [entry ''ann'' 70, entry ''bob'' 50, entry ''cat'' 30]
   \<and> is_entry (entry ''dan'' 1)
   \<and> length [entry ''ann'' 70, entry ''bob'' 50, entry ''cat'' 30] < 10
   \<and> (\<exists>R. merge sample_engine [entry ''ann'' 70, entry ''bob'' 50, entry ''cat'' 30]
             (entry ''dan'' 1) = Inr R
        \<and> entry ''dan'' 1 \<in> set R
        \<and> mset R = add_mset (entry ''dan'' 1)
             (mset [entry ''ann'' 70, entry ''bob'' 50, entry ''cat'' 30]))"
proof -
  have h: "list_all is_entry [entry ''ann'' 70, entry ''bob'' 50, entry ''cat'' 30]"
    by (simp add: is_entry_entry)
  have l: "length [entry ''ann'' 70, entry ''bob'' 50, entry ''cat'' 30] < 10"
    by simp
  from merge_keeps_entry_under_capacity [OF h is_entry_entry [of "''dan''" 1] l, of sample_engine]
    h l is_entry_entry [of "''dan''" 1]
  show ?thesis by blast
qed

text \<open>
  C10. For every leaderboard \<open>L\<close> and every score entry \<open>e\<close>, the entries of the merge's
  result that have one and the same \<^verbatim>\<open>shrimps\<close> value \<open>k\<close> stand in the order in which
  they stood in \<open>L\<close> with \<open>e\<close> appended: they are an initial part of the entries of \<open>L\<close>
  tied at \<open>k\<close>, followed by \<open>e\<close> if \<open>e\<close> is tied at \<open>k\<close> too. So \<open>e\<close>, when it is kept,
  comes after every entry of \<open>L\<close> with its \<^verbatim>\<open>shrimps\<close>.
\<close>

theorem merge_is_stable:
  assumes "list_all is_entry L" and "is_entry e"
  shows "\<exists>R. merge en L e = Inr R
    \<and> (\<forall>k. prefix (filter (tied k) R)
              (filter (tied k) L @ (if tied k e then [e] else [])))"
proof -
  from assms have "\<forall>x\<in>set (L @ [e]). is_entry x" by (simp add: list_all_iff)
  from sort_entries [OF this, of en] obtain S where
    S: "array_sort (compare_shrimps en) (L @ [e]) = Inr S"
    "\<forall>k. filter (tied k) S = filter (tied k) (L @ [e])"
    by blast
  have "prefix (filter (tied k) (take 10 S))
      (filter (tied k) L @ (if tied k e then [e] else []))" for k
  proof -
    have "prefix (filter (tied k) (take 10 S)) (filter (tied k) S)"
      by (rule filter_mono_prefix) (rule take_is_prefix)
    moreover have "filter (tied k) S = filter (tied k) L @ (if tied k e then [e] else [])"
      using S(2) by simp
    ultimately show ?thesis by (simp only:)
  qed
  with S(1) show ?thesis by (simp add: merge_def and_then_def)
qed

theorem merge_is_stable_witness:
  "list_all is_entry [entry ''ann'' 50, entry ''bob'' 70, entry ''cat'' 50]
   \<and> is_entry (entry ''dan'' 50)
   \<and> (\<exists>R. merge sample_engine [entry ''ann'' 50, entry ''bob'' 70, entry ''cat'' 50]
             (entry ''dan'' 50) = Inr R
        \<and> (\<forall>k. prefix (filter (tied k) R)
                  (filter (tied k) [entry ''ann'' 50, entry ''bob'' 70, entry ''cat'' 50]
                   @ (if tied k (entry ''dan'' 50) then [entry ''dan'' 50] else []))))"
proof -
  have h: "list_all is_entry [entry ''ann'' 50, entry ''bob'' 70, entry ''cat'' 50]"
    by (simp add: is_entry_entry)
  from merge_is_stable [OF h is_entry_entry [of "''dan''" 50], of sample_engine] h
    is_entry_entry [of "''dan''" 50]
  show ?thesis by blast
qed

section \<open>Method check\<close>

text \<open>
  C5. A request whose method is not \<^verbatim>\<open>POST\<close> is answered 405 with the message
  \<^verbatim>\<open>Method Not Allowed\<close>, and no call to the store is made: neither the read nor the
  write.
\<close>

theorem non_post_is_405_without_store_access:
  assumes "method req \<noteq> ''POST''"
  shows "status (handler en w req) = 405
    \<and> reply (handler en w req) = JObj [(''message'', JStr ''Method Not Allowed'')]
    \<and> calls (handler en w req) = []"
  using assms by (simp add: handler_def respond_def)

theorem non_post_is_405_without_store_access_witness:
  "method \<lparr>method = ''GET'', body = None\<rparr> \<noteq> ''POST''
   \<and> status (handler sample_engine sample_env \<lparr>method = ''GET'', body = None\<rparr>) = 405
   \<and> reply (handler sample_engine sample_env \<lparr>method = ''GET'', body = None\<rparr>)
       = JObj [(''message'', JStr ''Method Not Allowed'')]
   \<and> calls (handler sample_engine sample_env \<lparr>method = ''GET'', body = None\<rparr>) = []"
  using non_post_is_405_without_store_access
    [of "\<lparr>method = ''GET'', body = None\<rparr>" sample_engine sample_env]
  by simp

section \<open>Validation\<close>

text \<open>The examples of the spec's section 8, and a number that is no integer.\<close>

lemma validator_examples:
  "invalid en (Some (JStr [])) (Some (JNum (Fin 5))) = Inr True"
  "invalid en (Some (JStr ''xxxxxxxxxxxxxxxxxxxxx'')) (Some (JNum (Fin 5))) = Inr True"
  "invalid en (Some (JStr ''A'')) (Some (JNum (Fin 0))) = Inr True"
  "invalid en (Some (JStr ''A'')) (Some (JNum (Fin (- 5)))) = Inr True"
  "invalid en (Some (JStr ''A'')) (Some (JStr ''7'')) = Inr True"
  "invalid en None None = Inr True"
  "invalid en (Some (JStr ''A'')) (Some (JNum (Fin 1))) = Inr False"
  "invalid en (Some (JStr ''xxxxxxxxxxxxxxxxxxxx'')) (Some (JNum (Fin 999999))) = Inr False"
  "invalid en (Some (JStr ''A'')) (Some (JNum (Fin (3 / 2)))) = Inr False"
  by (simp_all add: invalid_def less_than_def greater_than_def and_then_def)

text \<open>
  The check stops at a \<^verbatim>\<open>shrimps\<close> that is less than 1, and throws on the \<^verbatim>\<open>length\<close> of
  the name only once the \<^verbatim>\<open>shrimps\<close> has passed.
\<close>

lemma odd_name_examples:
  "invalid en (Some odd_name) (Some (JNum (Fin 0))) = Inr True"
  "invalid en (Some odd_name) (Some (JNum (Fin 5))) = Inl TypeError"
  by (simp_all add: invalid_def less_than_def greater_than_def and_then_def odd_name_def)

text \<open>The check of line 24 is the negation of \<^const>\<open>accepted\<close>, and throws where it throws.\<close>

lemma invalid_table:
  "invalid en name shrimps =
     (case accepted en name shrimps of Inl e \<Rightarrow> Inl e | Inr a \<Rightarrow> Inr (\<not> a))"
proof (cases "shrimps_ok shrimps")
  case False
  then show ?thesis
    by (cases name; cases shrimps)
       (auto simp: invalid_def accepted_def shrimps_ok_def less_than_def and_then_def
         split: json.splits option.splits)
next
  case True
  then obtain n where n: "shrimps = Some (JNum n)" "\<not> jnum_less n (Fin 1)"
    by (auto simp: shrimps_ok_def split: option.splits json.splits)
  show ?thesis
  proof (cases name)
    case None
    then show ?thesis by (simp add: invalid_def accepted_def name_ok_def True)
  next
    case (Some v)
    then show ?thesis using n
      by (cases v)
        (auto simp: invalid_def accepted_def name_ok_def shrimps_ok_def less_than_def
          greater_than_def and_then_def Suc_le_eq split: sum.splits option.splits)
  qed
qed

text \<open>
  C1, as the spec has it, fails: the payload \<^verbatim>\<open>{"name": 42, "shrimps": 5}\<close> has a name
  that is no text, so the spec's rules reject it, and the handler lets it pass, goes on
  to the store and answers 200.
\<close>

theorem validator_accepts_number_as_name:
  "\<not> spec_valid (Some (JNum (Fin 42))) (Some (JNum (Fin 5)))
   \<and> invalid sample_engine (Some (JNum (Fin 42))) (Some (JNum (Fin 5))) = Inr False
   \<and> status (handler sample_engine sample_env
        (post (submission (JNum (Fin 42)) (JNum (Fin 5))))) = 200"
  by (simp add: spec_valid_def handler_def fetch_leaders_def process_def merge_def
      put_leaders_def respond_def invalid_def less_than_def greater_than_def and_then_def
      compare_shrimps_def new_score_def object_literal_def List.map_filter_def
      sample_engine_def sample_env_def entry_def post_def submission_def bin_def)

text \<open>
  C1, amended. On a \<^verbatim>\<open>POST\<close>, the handler goes on to the store if and only if the
  payload's \<^verbatim>\<open>shrimps\<close> is a number not less than 1 and its \<^verbatim>\<open>name\<close> is truthy with no
  \<^verbatim>\<open>length\<close> greater than 20: a text of 1 to 20 code units, but also a number other than
  zero, \<^verbatim>\<open>true\<close>, an array of at most 20 elements, or an object whose \<^verbatim>\<open>length\<close>,
  coerced to a number, is not greater than 20 (an absent one, and one that coerces to
  NaN, count as not greater). Every other payload from which the two fields can be read is answered 400
  with no call to the store, with one exception: when \<^verbatim>\<open>shrimps\<close> is a number not less
  than 1 and \<^verbatim>\<open>name\<close> is an object the coercion of whose \<^verbatim>\<open>length\<close> throws, the answer is
  500. With any other \<^verbatim>\<open>shrimps\<close> the check stops before it reads that \<^verbatim>\<open>length\<close>, and
  the answer is 400. A payload that is \<^verbatim>\<open>null\<close> or \<^verbatim>\<open>undefined\<close> is answered 500.
\<close>

theorem validation_as_coded:
  assumes "method req = ''POST''"
  shows "(\<forall>name shrimps.
            get_prop (body req) ''name'' = Inr name
            \<and> get_prop (body req) ''shrimps'' = Inr shrimps \<longrightarrow>
            (case accepted en name shrimps of
               Inr True \<Rightarrow> handler en w req = fetch_leaders en w name shrimps
             | Inr False \<Rightarrow>
                 handler en w req = respond 400 ''error'' ''Invalid score data.'' []
             | Inl e \<Rightarrow> handler en w req = unexpected []))
       \<and> (body req = None \<or> body req = Some JNull \<longrightarrow> handler en w req = unexpected [])"
  using assms
  by (auto simp: handler_def invalid_table split: sum.splits bool.splits)

theorem validation_as_coded_witness:
  "method (post (submission (JStr ''A'') (JNum (Fin 1)))) = ''POST''
   \<and> get_prop (body (post (submission (JStr ''A'') (JNum (Fin 1))))) ''name''
        = Inr (Some (JStr ''A''))
   \<and> get_prop (body (post (submission (JStr ''A'') (JNum (Fin 1))))) ''shrimps''
        = Inr (Some (JNum (Fin 1)))
   \<and> accepted sample_engine (Some (JStr ''A'')) (Some (JNum (Fin 1))) = Inr True
   \<and> handler sample_engine sample_env (post (submission (JStr ''A'') (JNum (Fin 1))))
        = fetch_leaders sample_engine sample_env (Some (JStr ''A'')) (Some (JNum (Fin 1)))"
  using validation_as_coded
    [of "post (submission (JStr ''A'') (JNum (Fin 1)))" sample_engine sample_env]
  by (simp add: post_def submission_def accepted_def name_ok_def shrimps_ok_def)

text \<open>Once the payload has passed, the read is the first thing that happens.\<close>

lemma fetch_leaders_contacts_store:
  "\<exists>cs. calls (fetch_leaders en w name shrimps) = GET # cs"
  by (auto simp: fetch_leaders_def process_def put_leaders_def respond_def unexpected_def
      Let_def
      split: fetch_result.splits payload.splits sum.splits option.splits json.splits)

text \<open>
  C6, as the spec has it, fails at three payloads that do not meet the rules of section
  4.1. The payload \<^verbatim>\<open>null\<close> is answered 500, not 400. So is
  \<^verbatim>\<open>{"name": {"length": {"toString": 1}}, "shrimps": 5}\<close>, where the check throws. And
  \<^verbatim>\<open>{"name": true, "shrimps": 5}\<close>, whose name is no text, passes the check: the store is
  read and written and the answer is 200.
\<close>

theorem invalid_payload_not_always_400:
  "spec_rejects (Some JNull)
   \<and> status (handler sample_engine sample_env (post JNull)) = 500
   \<and> spec_rejects (Some (submission odd_name (JNum (Fin 5))))
   \<and> status (handler sample_engine sample_env (post (submission odd_name (JNum (Fin 5)))))
        = 500
   \<and> spec_rejects (Some (submission (JBool True) (JNum (Fin 5))))
   \<and> status (handler sample_engine sample_env
        (post (submission (JBool True) (JNum (Fin 5))))) = 200
   \<and> calls (handler sample_engine sample_env
        (post (submission (JBool True) (JNum (Fin 5))))) \<noteq> []"
  by (simp add: spec_rejects_def spec_valid_def handler_def fetch_leaders_def process_def
      merge_def put_leaders_def respond_def unexpected_def invalid_def less_than_def
      greater_than_def and_then_def compare_shrimps_def new_score_def object_literal_def
      List.map_filter_def sample_engine_def sample_env_def entry_def post_def
      submission_def bin_def odd_name_def)

text \<open>
  C6, amended. A \<^verbatim>\<open>POST\<close> whose payload fails the validation of section 4.1 makes no
  call to the store, and is answered 400, with two exceptions. A payload that is
  \<^verbatim>\<open>null\<close> or \<^verbatim>\<open>undefined\<close>, and one whose \<^verbatim>\<open>shrimps\<close> is a number not less than 1 and
  whose \<^verbatim>\<open>name\<close> is an object the coercion of whose \<^verbatim>\<open>length\<close> throws, is answered 500,
  still with no call to the store. And a payload whose \<^verbatim>\<open>shrimps\<close> is a number not less
  than 1 and that fails only in that its \<^verbatim>\<open>name\<close> is no text, while that name is a
  number other than zero, \<^verbatim>\<open>true\<close>, an array of at most 20 elements or an object
  whose \<^verbatim>\<open>length\<close>, coerced to a number, is not greater than 20, passes: the handler
  goes on and reads the store.
\<close>

theorem invalid_payload_outcomes:
  assumes "method req = ''POST''" and "spec_rejects (body req)"
  shows "(case (get_prop (body req) ''name'', get_prop (body req) ''shrimps'') of
            (Inr name, Inr shrimps) \<Rightarrow>
              (case accepted en name shrimps of
                 Inr True \<Rightarrow>
                   typeof name \<noteq> ''string''
                   \<and> handler en w req = fetch_leaders en w name shrimps
                   \<and> (\<exists>cs. calls (handler en w req) = GET # cs)
               | Inr False \<Rightarrow>
                   status (handler en w req) = 400
                   \<and> reply (handler en w req) = JObj [(''error'', JStr ''Invalid score data.'')]
                   \<and> calls (handler en w req) = []
               | Inl e \<Rightarrow>
                   status (handler en w req) = 500 \<and> calls (handler en w req) = [])
          | _ \<Rightarrow> status (handler en w req) = 500 \<and> calls (handler en w req) = [])"
proof (cases "get_prop (body req) ''name''")
  case (Inl e)
  with assms(1) show ?thesis
    by (simp add: handler_def unexpected_def respond_def)
next
  case name: (Inr name)
  show ?thesis
  proof (cases "get_prop (body req) ''shrimps''")
    case (Inl e)
    with assms(1) name show ?thesis
      by (simp add: handler_def unexpected_def respond_def)
  next
    case shrimps: (Inr shrimps)
    from assms(2) name shrimps have bad: "\<not> spec_valid name shrimps"
      by (simp add: spec_rejects_def)
    show ?thesis
    proof (cases "accepted en name shrimps")
      case (Inl e)
      with assms(1) name shrimps show ?thesis
        by (simp add: handler_def invalid_table unexpected_def respond_def)
    next
      case (Inr a)
      show ?thesis
      proof (cases a)
        case False
        with Inr assms(1) name shrimps show ?thesis
          by (simp add: handler_def invalid_table respond_def)
      next
        case True
        with Inr have acc: "accepted en name shrimps = Inr True" by simp
        then have ok: "shrimps_ok shrimps" "name_ok en name = Inr True"
          by (auto simp: accepted_def split: if_splits)
        have "typeof name \<noteq> ''string''"
        proof
          assume "typeof name = ''string''"
          then obtain s where "name = Some (JStr s)"
            by (cases name rule: typeof.cases) auto
          with ok have "spec_valid name shrimps"
            by (auto simp: spec_valid_def shrimps_ok_def name_ok_def
                split: option.splits json.splits)
          with bad show False ..
        qed
        moreover from acc assms(1) name shrimps
        have h: "handler en w req = fetch_leaders en w name shrimps"
          by (simp add: handler_def invalid_table)
        moreover from h fetch_leaders_contacts_store [of en w name shrimps]
        have "\<exists>cs. calls (handler en w req) = GET # cs" by simp
        ultimately show ?thesis using acc name shrimps by simp
      qed
    qed
  qed
qed

theorem invalid_payload_outcomes_witness:
  "method (post (submission (JStr []) (JNum (Fin 5)))) = ''POST''
   \<and> spec_rejects (body (post (submission (JStr []) (JNum (Fin 5)))))
   \<and> status (handler sample_engine sample_env
        (post (submission (JStr []) (JNum (Fin 5))))) = 400
   \<and> reply (handler sample_engine sample_env (post (submission (JStr []) (JNum (Fin 5)))))
        = JObj [(''error'', JStr ''Invalid score data.'')]
   \<and> calls (handler sample_engine sample_env
        (post (submission (JStr []) (JNum (Fin 5))))) = []"
proof -
  have m: "method (post (submission (JStr []) (JNum (Fin 5)))) = ''POST''"
    by (simp add: post_def)
  have r: "spec_rejects (body (post (submission (JStr []) (JNum (Fin 5)))))"
    by (simp add: post_def submission_def spec_rejects_def spec_valid_def)
  from invalid_payload_outcomes [OF m r, of sample_engine sample_env] m r
  show ?thesis
    by (simp add: post_def submission_def accepted_def name_ok_def shrimps_ok_def)
qed

section \<open>The read of the store\<close>

lemma cy_request_fields:
  "method cy_request = ''POST''"
  "get_prop (body cy_request) ''name'' = Inr (Some (JStr ''cy''))"
  "get_prop (body cy_request) ''shrimps'' = Inr (Some (JNum (Fin 60)))"
  "invalid sample_engine (Some (JStr ''cy'')) (Some (JNum (Fin 60))) = Inr False"
  by (simp_all add: cy_request_def post_def submission_def invalid_def less_than_def
      greater_than_def and_then_def)

text \<open>
  C7, as the spec has it, fails: line 38 awaits the body of the failed answer for the log
  before line 39 returns. When that body does not arrive, the \<^verbatim>\<open>await\<close> throws, and the
  answer is the catch block's \<^verbatim>\<open>An unexpected error occurred.\<close>, not the read failure's.
\<close>

theorem unreadable_failed_read_is_unexpected:
  "method cy_request = ''POST''
   \<and> invalid sample_engine (Some (JStr ''cy'')) (Some (JNum (Fin 60))) = Inr False
   \<and> get_result unreadable_store = Response False Unreadable
   \<and> reply (handler sample_engine unreadable_store cy_request)
        = JObj [(''error'', JStr ''An unexpected error occurred.'')]
   \<and> reply (handler sample_engine unreadable_store cy_request)
        \<noteq> JObj [(''error'', JStr ''Failed to retrieve current leaderboard.'')]"
  by (simp add: cy_request_def post_def submission_def unreadable_store_def handler_def
      fetch_leaders_def respond_def unexpected_def invalid_def less_than_def
      greater_than_def and_then_def)

text \<open>
  C7, amended. On a \<^verbatim>\<open>POST\<close> with a valid payload, when the store answers the read with
  a status that is no success, the handler answers 500 and the only call made is the
  read: the write is never attempted. The error is
  \<^verbatim>\<open>Failed to retrieve current leaderboard.\<close> when the body of the store's answer can be
  read for the log, and the catch block's \<^verbatim>\<open>An unexpected error occurred.\<close> when it
  cannot.
\<close>

theorem failed_read_is_500_without_write:
  assumes "method req = ''POST''"
    and "get_prop (body req) ''name'' = Inr name"
    and "get_prop (body req) ''shrimps'' = Inr shrimps"
    and "invalid en name shrimps = Inr False"
    and "get_result w = Response False b"
  shows "status (handler en w req) = 500
    \<and> calls (handler en w req) = [GET]
    \<and> reply (handler en w req)
        = JObj [(''error'', JStr (if b = Unreadable then ''An unexpected error occurred.''
                                  else ''Failed to retrieve current leaderboard.''))]"
  using assms by (simp add: handler_def fetch_leaders_def respond_def unexpected_def)

theorem failed_read_is_500_without_write_witness:
  "method cy_request = ''POST''
   \<and> get_prop (body cy_request) ''name'' = Inr (Some (JStr ''cy''))
   \<and> get_prop (body cy_request) ''shrimps'' = Inr (Some (JNum (Fin 60)))
   \<and> invalid sample_engine (Some (JStr ''cy'')) (Some (JNum (Fin 60))) = Inr False
   \<and> get_result failing_store
        = Response False (Json (JObj [(''message'', JStr ''Bin not found'')]))
   \<and> status (handler sample_engine failing_store cy_request) = 500
   \<and> calls (handler sample_engine failing_store cy_request) = [GET]
   \<and> reply (handler sample_engine failing_store cy_request)
        = JObj [(''error'', JStr ''Failed to retrieve current leaderboard.'')]"
proof -
  have g: "get_result failing_store
      = Response False (Json (JObj [(''message'', JStr ''Bin not found'')]))"
    by (simp add: failing_store_def)
  from failed_read_is_500_without_write [OF cy_request_fields g] cy_request_fields g
  show ?thesis by simp
qed

text \<open>
  C8. On a \<^verbatim>\<open>POST\<close> with a valid payload, when the read succeeds and the document under
  \<^verbatim>\<open>record\<close> has no \<^verbatim>\<open>leaders\<close>, the handler takes the board to be empty and goes on:
  it writes a board whose one entry is the new score, and answers 200 when that write
  succeeds.
\<close>

theorem missing_leaders_is_empty_board:
  assumes "method req = ''POST''"
    and "get_prop (body req) ''name'' = Inr name"
    and "get_prop (body req) ''shrimps'' = Inr shrimps"
    and "invalid en name shrimps = Inr False"
    and "get_result w = Response True (Json doc)"
    and "get_prop (Some doc) ''record'' = Inr r"
    and "get_prop r ''leaders'' = Inr None"
  shows "handler en w req = put_leaders w [new_score name shrimps (now w)]
    \<and> calls (handler en w req)
        = [GET, PUT (JObj [(''leaders'', JArr [serialise (new_score name shrimps (now w))])])]
    \<and> (\<forall>p. put_result w = Response True p \<longrightarrow> status (handler en w req) = 200)"
  using assms
  by (auto simp: handler_def fetch_leaders_def process_def merge_def and_then_def
      put_leaders_def respond_def unexpected_def Let_def split: fetch_result.splits)

theorem missing_leaders_is_empty_board_witness:
  "method cy_request = ''POST''
   \<and> get_prop (body cy_request) ''name'' = Inr (Some (JStr ''cy''))
   \<and> get_prop (body cy_request) ''shrimps'' = Inr (Some (JNum (Fin 60)))
   \<and> invalid sample_engine (Some (JStr ''cy'')) (Some (JNum (Fin 60))) = Inr False
   \<and> get_result empty_store
        = Response True (Json (JObj [(''record'', JObj []), (''metadata'', JObj [])]))
   \<and> get_prop (Some (JObj [(''record'', JObj []), (''metadata'', JObj [])])) ''record''
        = Inr (Some (JObj []))
   \<and> get_prop (Some (JObj [])) ''leaders'' = Inr None
   \<and> calls (handler sample_engine empty_store cy_request)
        = [GET, PUT (JObj [(''leaders'', JArr [JObj [(''name'', JStr ''cy''),
             (''shrimps'', JNum (Fin 60)), (''date'', JStr ''2025-06-01T12:00:00.000Z'')]])])]
   \<and> status (handler sample_engine empty_store cy_request) = 200"
proof -
  have g: "get_result empty_store
      = Response True (Json (JObj [(''record'', JObj []), (''metadata'', JObj [])]))"
    by (simp add: empty_store_def bin_def)
  have r: "get_prop (Some (JObj [(''record'', JObj []), (''metadata'', JObj [])])) ''record''
      = Inr (Some (JObj []))"
    by simp
  have l: "get_prop (Some (JObj [])) ''leaders'' = Inr None"
    by simp
  have p: "put_result empty_store
      = Response True (Json (JObj [(''record'', JObj []), (''metadata'', JObj [])]))"
    by (simp add: empty_store_def sample_env_def bin_def)
  have t: "now empty_store = ''2025-06-01T12:00:00.000Z''"
    by (simp add: empty_store_def sample_env_def)
  note T = missing_leaders_is_empty_board [OF cy_request_fields g r l]
  from T have c: "calls (handler sample_engine empty_store cy_request)
      = [GET, PUT (JObj [(''leaders'', JArr [serialise
           (new_score (Some (JStr ''cy'')) (Some (JNum (Fin 60))) (now empty_store))])])]"
    by blast
  from T p have st: "status (handler sample_engine empty_store cy_request) = 200"
    by blast
  from c st cy_request_fields g r l show ?thesis
    by (simp add: t new_score_def object_literal_def List.map_filter_def)
qed

section \<open>What is written to the store\<close>

text \<open>Sorting keeps the elements, whatever the comparator does, as long as it returns.\<close>

lemma insert_by_mset:
  "insert_by cmp x ys = Inr r \<Longrightarrow> mset r = add_mset x (mset ys)"
  by (induction ys arbitrary: r) (auto split: sum.splits if_splits)

lemma array_sort_mset: "array_sort cmp xs = Inr r \<Longrightarrow> mset r = mset xs"
  by (induction xs arbitrary: r) (auto split: sum.splits dest: insert_by_mset)

lemma merge_subset:
  assumes "merge en L e = Inr R"
  shows "set R \<subseteq> insert e (set L)"
proof -
  from assms obtain S where
    S: "array_sort (compare_shrimps en) (L @ [e]) = Inr S" "R = take 10 S"
    by (auto simp: merge_def and_then_def split: sum.splits)
  from array_sort_mset [OF S(1)] have "set S = set (L @ [e])" by (rule mset_eq_setD)
  with S(2) show ?thesis using set_take_subset [of 10 S] by auto
qed

lemma date_of_new_score:
  "get_prop (Some (new_score name shrimps d)) ''date'' = Inr (Some (JStr d))"
  by (cases name; cases shrimps)
    (simp_all add: new_score_def object_literal_def List.map_filter_def)

text \<open>A submission that passes line 24 makes a score entry.\<close>

lemma new_score_is_entry:
  assumes "invalid en name shrimps = Inr False"
  shows "is_entry (new_score name shrimps d)"
proof -
  from assms have t: "truthy name" "typeof shrimps = ''number''"
    by (auto simp: invalid_def split: if_splits)
  from t(1) obtain v where "name = Some v"
    by (cases name) auto
  moreover from t(2) obtain n where "shrimps = Some (JNum n)"
    by (cases shrimps rule: typeof.cases) auto
  ultimately show ?thesis
    by (simp add: is_entry_def new_score_def object_literal_def List.map_filter_def)
qed

lemma put_leaders_calls:
  "calls (put_leaders w kept) = [GET, PUT (JObj [(''leaders'', JArr (map serialise kept))])]"
  by (simp add: put_leaders_def respond_def unexpected_def Let_def
      split: fetch_result.splits)

lemma process_writes:
  assumes "PUT v \<in> set (calls (process en w name shrimps doc))"
    and "get_result w = Response ok (Json doc)"
  shows "\<exists>kept. v = JObj [(''leaders'', JArr (map serialise kept))]
     \<and> set kept \<subseteq> insert (new_score name shrimps (now w)) (set (stored_leaders w))"
proof -
  from assms(1) obtain l where
    l: "and_then (get_prop (Some doc) ''record'') (\<lambda>r. get_prop r ''leaders'') = Inr l"
    by (auto simp: process_def unexpected_def respond_def split: sum.splits)
  from assms(1) l obtain xs where
    xs: "(if truthy l then l else Some (JArr [])) = Some (JArr xs)"
    by (auto simp: process_def unexpected_def respond_def
        split: option.splits json.splits if_splits)
  from assms(1) l xs obtain kept where
    kept: "merge en xs (new_score name shrimps (now w)) = Inr kept"
      "PUT v \<in> set (calls (put_leaders w kept))"
    by (auto simp: process_def unexpected_def respond_def split: sum.splits)
  have "set xs \<subseteq> set (stored_leaders w)"
  proof (cases "truthy l")
    case True
    with xs have "l = Some (JArr xs)" by simp
    with l assms(2) show ?thesis by (simp add: stored_leaders_def)
  next
    case False
    with xs show ?thesis by simp
  qed
  with merge_subset [OF kept(1)]
  have "set kept \<subseteq> insert (new_score name shrimps (now w)) (set (stored_leaders w))"
    by auto
  moreover from kept(2) have "v = JObj [(''leaders'', JArr (map serialise kept))]"
    by (simp add: put_leaders_calls)
  ultimately show ?thesis by blast
qed

lemma fetch_leaders_writes:
  assumes "PUT v \<in> set (calls (fetch_leaders en w name shrimps))"
  shows "\<exists>kept. v = JObj [(''leaders'', JArr (map serialise kept))]
     \<and> set kept \<subseteq> insert (new_score name shrimps (now w)) (set (stored_leaders w))"
proof -
  from assms obtain doc where doc: "get_result w = Response True (Json doc)"
    by (auto simp: fetch_leaders_def respond_def unexpected_def
        split: fetch_result.splits payload.splits if_splits)
  with assms have "PUT v \<in> set (calls (process en w name shrimps doc))"
    by (simp add: fetch_leaders_def)
  from process_writes [OF this doc] show ?thesis .
qed

text \<open>
  C9. Two requests with the same method whose payloads give the same \<^verbatim>\<open>name\<close> and the
  same \<^verbatim>\<open>shrimps\<close>, and differ in anything else, a \<^verbatim>\<open>date\<close> of the client's for one,
  have the same outcome in the same world: the same answer and the same calls, so the
  same board written. And whatever is written consists of elements that the store held
  and of the new entry, whose \<^verbatim>\<open>date\<close> is the server's clock.
\<close>

theorem stored_date_is_the_servers:
  assumes "method r1 = method r2"
    and "get_prop (body r1) ''name'' = get_prop (body r2) ''name''"
    and "get_prop (body r1) ''shrimps'' = get_prop (body r2) ''shrimps''"
  shows "handler en w r1 = handler en w r2
    \<and> (\<forall>v. PUT v \<in> set (calls (handler en w r1)) \<longrightarrow>
          (\<exists>name shrimps kept.
             get_prop (body r1) ''name'' = Inr name
             \<and> get_prop (body r1) ''shrimps'' = Inr shrimps
             \<and> v = JObj [(''leaders'', JArr (map serialise kept))]
             \<and> set kept \<subseteq> insert (new_score name shrimps (now w)) (set (stored_leaders w))
             \<and> get_prop (Some (new_score name shrimps (now w))) ''date''
                 = Inr (Some (JStr (now w)))))"
proof (intro conjI allI impI)
  show "handler en w r1 = handler en w r2"
    using assms by (simp add: handler_def cong: sum.case_cong)
next
  fix v
  assume v: "PUT v \<in> set (calls (handler en w r1))"
  then obtain name shrimps where f: "get_prop (body r1) ''name'' = Inr name"
      "get_prop (body r1) ''shrimps'' = Inr shrimps"
      "handler en w r1 = fetch_leaders en w name shrimps"
    by (auto simp: handler_def respond_def unexpected_def
        split: sum.splits bool.splits if_splits)
  from v f(3) have "PUT v \<in> set (calls (fetch_leaders en w name shrimps))" by simp
  from fetch_leaders_writes [OF this] f(1,2) date_of_new_score [of name shrimps "now w"]
  show "\<exists>name shrimps kept.
             get_prop (body r1) ''name'' = Inr name
             \<and> get_prop (body r1) ''shrimps'' = Inr shrimps
             \<and> v = JObj [(''leaders'', JArr (map serialise kept))]
             \<and> set kept \<subseteq> insert (new_score name shrimps (now w)) (set (stored_leaders w))
             \<and> get_prop (Some (new_score name shrimps (now w))) ''date''
                 = Inr (Some (JStr (now w)))"
    by blast
qed

theorem stored_date_is_the_servers_witness:
  "method dated_request = method cy_request
   \<and> get_prop (body dated_request) ''name'' = get_prop (body cy_request) ''name''
   \<and> get_prop (body dated_request) ''shrimps'' = get_prop (body cy_request) ''shrimps''
   \<and> body dated_request \<noteq> body cy_request
   \<and> handler sample_engine sample_env dated_request
       = handler sample_engine sample_env cy_request"
proof -
  have m: "method dated_request = method cy_request"
    by (simp add: dated_request_def cy_request_def post_def)
  have n: "get_prop (body dated_request) ''name'' = get_prop (body cy_request) ''name''"
    by (simp add: dated_request_def cy_request_def post_def submission_def)
  have s: "get_prop (body dated_request) ''shrimps'' = get_prop (body cy_request) ''shrimps''"
    by (simp add: dated_request_def cy_request_def post_def submission_def)
  have d: "body dated_request \<noteq> body cy_request"
    by (simp add: dated_request_def cy_request_def post_def submission_def)
  from stored_date_is_the_servers [OF m n s, of sample_engine sample_env] m n s d
  show ?thesis by blast
qed

end
